theory Spec2Isabelle
  imports Complex_Main
begin

section \<open>Shape model\<close>

text \<open>
  The editor of \<^verbatim>\<open>src/app/build/page.tsx\<close> keeps an ordered list of shapes. A shape is
  a tagged union over four variants that share the attributes of \<^verbatim>\<open>BaseShape\<close>.
  JavaScript numbers are modelled as real numbers (exact arithmetic); optional properties
  (\<^verbatim>\<open>name?\<close>, \<^verbatim>\<open>locked?\<close>, ...) are options. Field names carry a prefix, since
  \<^verbatim>\<open>id\<close>, \<^verbatim>\<open>x\<close>, \<^verbatim>\<open>y\<close>, \<^verbatim>\<open>text\<close> cannot be used as constant names and
  \<^verbatim>\<open>width\<close>, \<^verbatim>\<open>fill\<close> occur in several variants.
\<close>

record BaseShape =
  shape_id :: string
  shape_x :: real
  shape_y :: real
  shape_rotation :: real
  shape_name :: "string option"
  shape_locked :: "bool option"
  shape_hidden :: "bool option"

record RectShape = BaseShape +
  rect_width :: real
  rect_height :: real
  rect_fill :: string
  rect_stroke :: "string option"
  rect_strokeWidth :: "real option"
  rect_cornerRadius :: "real option"

record CircleShape = BaseShape +
  circle_radius :: real
  circle_fill :: string
  circle_stroke :: "string option"
  circle_strokeWidth :: "real option"

record TextShape = BaseShape +
  text_text :: string
  text_fontSize :: real
  text_width :: "real option"
  text_fill :: string

record ImageShape = BaseShape +
  image_width :: real
  image_height :: real
  image_src :: string

datatype Shape =
    Rect RectShape
  | Circle CircleShape
  | Text TextShape
  | Image ImageShape

text \<open>The shared attributes read through the union (\<^verbatim>\<open>s.id\<close>, \<^verbatim>\<open>s.x\<close>, \<^verbatim>\<open>s.y\<close>).\<close>

fun id_of :: "Shape \<Rightarrow> string" where
  "id_of (Rect r) = shape_id r"
| "id_of (Circle c) = shape_id c"
| "id_of (Text t) = shape_id t"
| "id_of (Image i) = shape_id i"

fun x_of :: "Shape \<Rightarrow> real" where
  "x_of (Rect r) = shape_x r"
| "x_of (Circle c) = shape_x c"
| "x_of (Text t) = shape_x t"
| "x_of (Image i) = shape_x i"

fun y_of :: "Shape \<Rightarrow> real" where
  "y_of (Rect r) = shape_y r"
| "y_of (Circle c) = shape_y c"
| "y_of (Text t) = shape_y t"
| "y_of (Image i) = shape_y i"

text \<open>\<^verbatim>\<open>type ShapeUpdater = (prev: Shape[]) => Shape[]\<close>; \<^verbatim>\<open>commit\<close> takes either a
  list of shapes or an updater.\<close>

datatype Next =
    Value "Shape list"
  | Updater "Shape list \<Rightarrow> Shape list"

section \<open>Editor state\<close>

text \<open>
  The \<^verbatim>\<open>useState\<close> cells of \<^verbatim>\<open>SingleSlideEditorMVP\<close> that the document engine
  reads and writes. Every handler is a function from the state of one render to the
  state of the next one; the state setters called inside a handler are applied in the
  order in which React runs them, each exactly once.
\<close>

record Point =
  pt_x :: real
  pt_y :: real

record Editor =
  shapes :: "Shape list"
  selectedId :: "string option"
  scale :: real
  offset :: Point
  history :: "Shape list list"
  future :: "Shape list list"
  gridEnabled :: bool
  gridSize :: real

text \<open>The state of the first render: \<^verbatim>\<open>useState([])\<close>, \<^verbatim>\<open>useState(1)\<close>, ...\<close>

definition initial :: Editor where
  "initial = \<lparr> shapes = [], selectedId = None, scale = 1, offset = \<lparr> pt_x = 0, pt_y = 0 \<rparr>,
     history = [], future = [], gridEnabled = True, gridSize = 32 \<rparr>"

section \<open>History\<close>

text \<open>\<^verbatim>\<open>xs.slice(-n)\<close>: the last \<open>n\<close> elements, the whole array when it is shorter.\<close>

definition slice_last :: "nat \<Rightarrow> 'a list \<Rightarrow> 'a list" where
  "slice_last n xs = drop (length xs - n) xs"

text \<open>\<^verbatim>\<open>typeof next === 'function' ? next(prev) : next\<close>\<close>

fun resolve :: "Next \<Rightarrow> Shape list \<Rightarrow> Shape list" where
  "resolve (Updater f) prev = f prev"
| "resolve (Value v) prev = v"

text \<open>
  \<^verbatim>\<open>commit\<close> (lines 155-162). \<^verbatim>\<open>structuredClone\<close> copies the resolved list; lists are
  values here, so the copy is the list itself.
\<close>

definition commit :: "Next \<Rightarrow> Editor \<Rightarrow> Editor" where
  "commit nxt st =
     (let prev = shapes st;
          resolved = resolve nxt prev
      in st \<lparr> history := slice_last 49 (history st) @ [prev],
              future := [],
              shapes := resolved \<rparr>)"

text \<open>\<^verbatim>\<open>undo\<close> (lines 164-172) and \<^verbatim>\<open>redo\<close> (lines 174-182).\<close>

definition undo :: "Editor \<Rightarrow> Editor" where
  "undo st =
     (let h = history st
      in if length h = 0 then st \<lparr> selectedId := None \<rparr>
         else st \<lparr> future := take 50 (shapes st # future st),
                   shapes := h ! (length h - 1),
                   history := take (length h - 1) h,
                   selectedId := None \<rparr>)"

definition redo :: "Editor \<Rightarrow> Editor" where
  "redo st =
     (let f = future st
      in if length f = 0 then st \<lparr> selectedId := None \<rparr>
         else st \<lparr> history := slice_last 50 (history st @ [shapes st]),
                   shapes := f ! 0,
                   future := drop 1 f,
                   selectedId := None \<rparr>)"

text \<open>The toolbar enables the buttons by \<^verbatim>\<open>disabled={history.length === 0}\<close> and
  \<^verbatim>\<open>disabled={future.length === 0}\<close> (lines 418-419).\<close>

definition canUndo :: "Editor \<Rightarrow> bool" where
  "canUndo st = (length (history st) \<noteq> 0)"

definition canRedo :: "Editor \<Rightarrow> bool" where
  "canRedo st = (length (future st) \<noteq> 0)"

text \<open>
  A sequence of committed mutations, applied one after the other, and the snapshots it
  passes through: the starting snapshot first, the snapshot after the last commit last.
\<close>

fun run_commits :: "Next list \<Rightarrow> Editor \<Rightarrow> Editor" where
  "run_commits [] st = st"
| "run_commits (m # ms) st = run_commits ms (commit m st)"

fun trajectory :: "Next list \<Rightarrow> Shape list \<Rightarrow> Shape list list" where
  "trajectory [] s = [s]"
| "trajectory (m # ms) s = s # trajectory ms (resolve m s)"

section \<open>Document mutations\<close>

text \<open>
  \<^verbatim>\<open>Partial<Shape>\<close>: the properties that the call sites of \<^verbatim>\<open>updateShape\<close> pass, each
  absent or present.
\<close>

record Partial =
  p_x :: "real option"
  p_y :: "real option"
  p_rotation :: "real option"
  p_name :: "string option"
  p_locked :: "bool option"
  p_hidden :: "bool option"
  p_width :: "real option"
  p_height :: "real option"
  p_radius :: "real option"
  p_fill :: "string option"
  p_stroke :: "string option"
  p_strokeWidth :: "real option"
  p_cornerRadius :: "real option"
  p_text :: "string option"
  p_fontSize :: "real option"

definition no_fields :: Partial where
  "no_fields = \<lparr> p_x = None, p_y = None, p_rotation = None, p_name = None, p_locked = None,
     p_hidden = None, p_width = None, p_height = None, p_radius = None, p_fill = None,
     p_stroke = None, p_strokeWidth = None, p_cornerRadius = None, p_text = None,
     p_fontSize = None \<rparr>"

text \<open>A property of the spread \<^verbatim>\<open>{ ...s, ...partial }\<close>: the partial's value when it has
  one, the shape's otherwise; \<open>over_opt\<close> is the same for an optional property.\<close>

fun over :: "'a option \<Rightarrow> 'a \<Rightarrow> 'a" where
  "over None old = old"
| "over (Some v) old = v"

fun over_opt :: "'a option \<Rightarrow> 'a option \<Rightarrow> 'a option" where
  "over_opt None old = old"
| "over_opt (Some v) old = Some v"

text \<open>
  \<^verbatim>\<open>{ ...s, ...partial } as Shape\<close>. The result is read at type \<^verbatim>\<open>Shape\<close>, so a
  property of the partial that the variant does not declare is not part of the value.
\<close>

fun spread :: "Shape \<Rightarrow> Partial \<Rightarrow> Shape" where
  "spread (Rect r) p = Rect (r \<lparr>
     shape_x := over (p_x p) (shape_x r),
     shape_y := over (p_y p) (shape_y r),
     shape_rotation := over (p_rotation p) (shape_rotation r),
     shape_name := over_opt (p_name p) (shape_name r),
     shape_locked := over_opt (p_locked p) (shape_locked r),
     shape_hidden := over_opt (p_hidden p) (shape_hidden r),
     rect_width := over (p_width p) (rect_width r),
     rect_height := over (p_height p) (rect_height r),
     rect_fill := over (p_fill p) (rect_fill r),
     rect_stroke := over_opt (p_stroke p) (rect_stroke r),
     rect_strokeWidth := over_opt (p_strokeWidth p) (rect_strokeWidth r),
     rect_cornerRadius := over_opt (p_cornerRadius p) (rect_cornerRadius r) \<rparr>)"
| "spread (Circle c) p = Circle (c \<lparr>
     shape_x := over (p_x p) (shape_x c),
     shape_y := over (p_y p) (shape_y c),
     shape_rotation := over (p_rotation p) (shape_rotation c),
     shape_name := over_opt (p_name p) (shape_name c),
     shape_locked := over_opt (p_locked p) (shape_locked c),
     shape_hidden := over_opt (p_hidden p) (shape_hidden c),
     circle_radius := over (p_radius p) (circle_radius c),
     circle_fill := over (p_fill p) (circle_fill c),
     circle_stroke := over_opt (p_stroke p) (circle_stroke c),
     circle_strokeWidth := over_opt (p_strokeWidth p) (circle_strokeWidth c) \<rparr>)"
| "spread (Text t) p = Text (t \<lparr>
     shape_x := over (p_x p) (shape_x t),
     shape_y := over (p_y p) (shape_y t),
     shape_rotation := over (p_rotation p) (shape_rotation t),
     shape_name := over_opt (p_name p) (shape_name t),
     shape_locked := over_opt (p_locked p) (shape_locked t),
     shape_hidden := over_opt (p_hidden p) (shape_hidden t),
     text_text := over (p_text p) (text_text t),
     text_fontSize := over (p_fontSize p) (text_fontSize t),
     text_width := over_opt (p_width p) (text_width t),
     text_fill := over (p_fill p) (text_fill t) \<rparr>)"
| "spread (Image i) p = Image (i \<lparr>
     shape_x := over (p_x p) (shape_x i),
     shape_y := over (p_y p) (shape_y i),
     shape_rotation := over (p_rotation p) (shape_rotation i),
     shape_name := over_opt (p_name p) (shape_name i),
     shape_locked := over_opt (p_locked p) (shape_locked i),
     shape_hidden := over_opt (p_hidden p) (shape_hidden i),
     image_width := over (p_width p) (image_width i),
     image_height := over (p_height p) (image_height i) \<rparr>)"

text \<open>\<^verbatim>\<open>updateShape\<close> (lines 226-228).\<close>

definition updateShape :: "string \<Rightarrow> Partial \<Rightarrow> Editor \<Rightarrow> Editor" where
  "updateShape sid partial st =
     commit (Updater (\<lambda>prev. map (\<lambda>s. if id_of s = sid then spread s partial else s) prev)) st"

text \<open>
  The add handlers (lines 185-208). \<^verbatim>\<open>uid(prefix)\<close> draws the identifier from
  \<^verbatim>\<open>Math.random\<close>; the drawn identifier is a parameter here. The hyphen of the default
  text is U+2011, written as its UTF-8 bytes.
\<close>

definition addRect :: "string \<Rightarrow> Editor \<Rightarrow> Editor" where
  "addRect new_id st =
     (let s = Rect \<lparr> shape_id = new_id, shape_x = 200, shape_y = 150, shape_rotation = 0,
                shape_name = Some ''Rectangle'', shape_locked = None, shape_hidden = None,
                rect_width = 320, rect_height = 180, rect_fill = ''#ffd166'',
                rect_stroke = Some ''#111827'', rect_strokeWidth = Some 2,
                rect_cornerRadius = Some 12 \<rparr>
      in (commit (Updater (\<lambda>prev. prev @ [s])) st) \<lparr> selectedId := Some (id_of s) \<rparr>)"

definition addCircle :: "string \<Rightarrow> Editor \<Rightarrow> Editor" where
  "addCircle new_id st =
     (let s = Circle \<lparr> shape_id = new_id, shape_x = 500, shape_y = 300, shape_rotation = 0,
                shape_name = Some ''Circle'', shape_locked = None, shape_hidden = None,
                circle_radius = 100, circle_fill = ''#a7f3d0'',
                circle_stroke = Some ''#111827'', circle_strokeWidth = Some 2 \<rparr>
      in (commit (Updater (\<lambda>prev. prev @ [s])) st) \<lparr> selectedId := Some (id_of s) \<rparr>)"

definition addText :: "string \<Rightarrow> Editor \<Rightarrow> Editor" where
  "addText new_id st =
     (let s = Text \<lparr> shape_id = new_id, shape_x = 240, shape_y = 180, shape_rotation = 0,
                shape_name = Some ''Text'', shape_locked = None, shape_hidden = None,
                text_text = ''Double'' @ [CHR 0xE2, CHR 0x80, CHR 0x91] @ ''tap to edit'',
                text_fontSize = 40, text_width = Some 600, text_fill = ''#111827'' \<rparr>
      in (commit (Updater (\<lambda>prev. prev @ [s])) st) \<lparr> selectedId := Some (id_of s) \<rparr>)"

text \<open>
  \<^verbatim>\<open>onImageUpload\<close> (lines 203-208) awaits \<^verbatim>\<open>loadImage(url)\<close> (lines 85-97), whose
  promise resolves to the loaded image or rejects (\<^verbatim>\<open>img.onerror = reject\<close>). The object
  URL and the outcome of the load are parameters. When the load is rejected the handler's
  own promise is rejected at the \<^verbatim>\<open>await\<close>: nothing after it runs, so no shape is
  added and the editor state stays as it is; the result is then the error. What the
  handler reads of the loaded image is its \<^verbatim>\<open>width\<close> and \<^verbatim>\<open>height\<close>.
\<close>

datatype error = ImageLoadError

record HTMLImage =
  img_width :: real
  img_height :: real

definition onImageUpload ::
  "string \<Rightarrow> string \<Rightarrow> error + HTMLImage \<Rightarrow> Editor \<Rightarrow> error + Editor" where
  "onImageUpload new_id url loaded st =
     (case loaded of
        Inl e \<Rightarrow> Inl e
      | Inr img \<Rightarrow>
          (let s = Image \<lparr> shape_id = new_id, shape_x = 260, shape_y = 220, shape_rotation = 0,
                     shape_name = Some ''Image'', shape_locked = None, shape_hidden = None,
                     image_width = min 600 (img_width img),
                     image_height = min 400 (img_height img),
                     image_src = url \<rparr>
           in Inr ((commit (Updater (\<lambda>prev. prev @ [s])) st) \<lparr> selectedId := Some (id_of s) \<rparr>)))"

section \<open>Layer operations\<close>

text \<open>\<^verbatim>\<open>Array.prototype.findIndex\<close>: the first index whose element satisfies the
  predicate, \<open>-1\<close> when there is none.\<close>

fun findIndex :: "('a \<Rightarrow> bool) \<Rightarrow> 'a list \<Rightarrow> int" where
  "findIndex P [] = - 1"
| "findIndex P (x # xs) =
     (if P x then 0 else (let i = findIndex P xs in if i < 0 then - 1 else i + 1))"

text \<open>The updaters of \<^verbatim>\<open>bringForward\<close> (lines 359-369) and \<^verbatim>\<open>sendBackward\<close>
  (lines 370-380); both indices of each swap are inside the array.\<close>

definition bringForward_updater :: "string \<Rightarrow> Shape list \<Rightarrow> Shape list" where
  "bringForward_updater sid prev =
     (let idx = findIndex (\<lambda>s. id_of s = sid) prev
      in if idx < 0 \<or> idx = int (length prev) - 1 then prev
         else (let i = nat idx;
                   tmp = prev ! i;
                   next1 = prev[i := prev ! (i + 1)]
               in next1[i + 1 := tmp]))"

definition sendBackward_updater :: "string \<Rightarrow> Shape list \<Rightarrow> Shape list" where
  "sendBackward_updater sid prev =
     (let idx = findIndex (\<lambda>s. id_of s = sid) prev
      in if idx \<le> 0 then prev
         else (let i = nat idx;
                   tmp = prev ! i;
                   next1 = prev[i := prev ! (i - 1)]
               in next1[i - 1 := tmp]))"

definition bringForward :: "string \<Rightarrow> Editor \<Rightarrow> Editor" where
  "bringForward sid st = commit (Updater (bringForward_updater sid)) st"

definition sendBackward :: "string \<Rightarrow> Editor \<Rightarrow> Editor" where
  "sendBackward sid st = commit (Updater (sendBackward_updater sid)) st"

section \<open>Viewport\<close>

definition SLIDE_W :: real where
  "SLIDE_W = 1920"

definition SLIDE_H :: real where
  "SLIDE_H = 1080"

definition clamp :: "real \<Rightarrow> real \<Rightarrow> real \<Rightarrow> real" where
  "clamp v mn mx = max mn (min mx v)"

text \<open>\<^verbatim>\<open>container.size\<close>, and the Konva stage behind \<^verbatim>\<open>stageRef\<close> with what its
  \<^verbatim>\<open>getPointerPosition()\<close> returns.\<close>

record Size =
  width :: real
  height :: real

record Stage =
  pointerPosition :: "Point option"

text \<open>\<^verbatim>\<open>fitToScreen\<close> (lines 142-150); \<^verbatim>\<open>!width\<close> holds of the number 0.\<close>

definition fitToScreen :: "Size \<Rightarrow> Editor \<Rightarrow> Editor" where
  "fitToScreen csize st =
     (if width csize = 0 \<or> height csize = 0 then st
      else (let scaleX = width csize / SLIDE_W;
                scaleY = height csize / SLIDE_H;
                nextScale = min scaleX scaleY
            in st \<lparr> scale := nextScale,
                    offset := \<lparr> pt_x = (width csize - SLIDE_W * nextScale) / 2,
                                pt_y = (height csize - SLIDE_H * nextScale) / 2 \<rparr> \<rparr>))"

text \<open>\<^verbatim>\<open>zoomBy\<close> (lines 267-276). \<^verbatim>\<open>stageRef.current\<close> is null until the stage is
  mounted.\<close>

definition zoomBy :: "Stage option \<Rightarrow> Size \<Rightarrow> real \<Rightarrow> Point option \<Rightarrow> Editor \<Rightarrow> Editor" where
  "zoomBy stageRef csize factor center st =
     (case stageRef of
        None \<Rightarrow> st
      | Some stage \<Rightarrow>
          (let pointer =
                 (case center of
                    Some c \<Rightarrow> c
                  | None \<Rightarrow>
                      (case pointerPosition stage of
                         Some q \<Rightarrow> q
                       | None \<Rightarrow> \<lparr> pt_x = width csize / 2, pt_y = height csize / 2 \<rparr>));
               oldScale = scale st;
               mousePointTo = \<lparr> pt_x = (pt_x pointer - pt_x (offset st)) / oldScale,
                                pt_y = (pt_y pointer - pt_y (offset st)) / oldScale \<rparr>;
               newScale = clamp (oldScale * factor) (1 / 10) 4;
               newPos = \<lparr> pt_x = pt_x pointer - pt_x mousePointTo * newScale,
                          pt_y = pt_y pointer - pt_y mousePointTo * newScale \<rparr>
           in st \<lparr> scale := newScale, offset := newPos \<rparr>))"

text \<open>
  Modelled from the spec: \<open>toDocument\<close>, which the source does not define as a function.
  The spec gives \<^verbatim>\<open>toDocument(screenPoint, viewport) = (screenPoint - offset) / scale\<close>;
  the source computes the same expression inline as \<^verbatim>\<open>mousePointTo\<close> (line 272) and
  draws the layer at \<^verbatim>\<open>x={offset.x} y={offset.y} scaleX={scale} scaleY={scale}\<close>.
\<close>

definition toDocument :: "Point \<Rightarrow> Editor \<Rightarrow> Point" where
  "toDocument p st = \<lparr> pt_x = (pt_x p - pt_x (offset st)) / scale st,
                        pt_y = (pt_y p - pt_y (offset st)) / scale st \<rparr>"

section \<open>Grid and alignment\<close>

text \<open>\<^verbatim>\<open>Math.round\<close> rounds to the nearest integer, a half towards \<open>+\<infinity>\<close>.\<close>

definition Math_round :: "real \<Rightarrow> real" where
  "Math_round v = of_int \<lfloor>v + 1 / 2\<rfloor>"

text \<open>\<^verbatim>\<open>snap\<close> (line 310), a closure over \<^verbatim>\<open>gridEnabled\<close> and \<^verbatim>\<open>gridSize\<close>.\<close>

definition snap :: "Editor \<Rightarrow> real \<Rightarrow> real" where
  "snap st n = (if gridEnabled st then Math_round (n / gridSize st) * gridSize st else n)"

datatype Direction = Left | CenterX | Right | Top | CenterY | Bottom

text \<open>\<^verbatim>\<open>getSize\<close> (lines 342-346).\<close>

fun getSize :: "Shape \<Rightarrow> real \<times> real" where
  "getSize (Rect r) = (rect_width r, rect_height r)"
| "getSize (Image i) = (image_width i, image_height i)"
| "getSize (Circle c) = (circle_radius c * 2, circle_radius c * 2)"
| "getSize (Text t) = (case text_width t of Some w \<Rightarrow> w | None \<Rightarrow> 300, text_fontSize t * 12 / 10)"

text \<open>The position that \<^verbatim>\<open>alignSelected\<close> computes for the selected shape (lines
  347-354), before snapping.\<close>

definition align_target :: "Direction \<Rightarrow> Shape \<Rightarrow> real \<times> real" where
  "align_target dir s =
     (let (w, h) = getSize s;
          nx0 = x_of s;
          ny0 = y_of s;
          nx1 = (if dir = Left then 0 else nx0);
          nx2 = (if dir = CenterX then (SLIDE_W - w) / 2 else nx1);
          nx3 = (if dir = Right then SLIDE_W - w else nx2);
          ny1 = (if dir = Top then 0 else ny0);
          ny2 = (if dir = CenterY then (SLIDE_H - h) / 2 else ny1);
          ny3 = (if dir = Bottom then SLIDE_H - h else ny2)
      in (nx3, ny3))"

text \<open>\<^verbatim>\<open>alignSelected\<close> (lines 338-356); \<^verbatim>\<open>!selectedId\<close> holds of \<^verbatim>\<open>null\<close> and of
  the empty string.\<close>

definition alignSelected :: "Direction \<Rightarrow> Editor \<Rightarrow> Editor" where
  "alignSelected dir st =
     (case selectedId st of
        None \<Rightarrow> st
      | Some sel \<Rightarrow>
          if sel = [] then st
          else (case find (\<lambda>x. id_of x = sel) (shapes st) of
                  None \<Rightarrow> st
                | Some s \<Rightarrow>
                    (let (nx, ny) = align_target dir s
                     in updateShape (id_of s)
                          (no_fields \<lparr> p_x := Some (snap st nx), p_y := Some (snap st ny) \<rparr>) st)))"

text \<open>The selected shape as \<^verbatim>\<open>alignSelected\<close> writes it back: the spread of the snapped
  target position over the shape.\<close>

abbreviation aligned :: "Editor \<Rightarrow> Direction \<Rightarrow> Shape \<Rightarrow> Shape" where
  "aligned st dir s \<equiv>
     spread s (no_fields \<lparr> p_x := Some (snap st (fst (align_target dir s))),
                          p_y := Some (snap st (snd (align_target dir s))) \<rparr>)"

section \<open>Resize and rotate reconciliation\<close>

text \<open>What a handler reads and writes of the Konva node \<^verbatim>\<open>e.target\<close>.\<close>

record Node =
  node_x :: real
  node_y :: real
  node_rotation :: real
  node_scaleX :: real
  node_scaleY :: real

text \<open>
  The \<^verbatim>\<open>onTransformEnd\<close> handlers of the four shape kinds (lines 684-689, 713-718,
  743-747 and 634-647). \<open>s\<close> is the shape that the node was rendered from. Each returns
  the node as the handler leaves it and the next editor state.
\<close>

definition rect_onTransformEnd :: "RectShape \<Rightarrow> Node \<Rightarrow> Editor \<Rightarrow> Node \<times> Editor" where
  "rect_onTransformEnd s node st =
     (let scaleX = node_scaleX node;
          scaleY = node_scaleY node;
          node1 = node \<lparr> node_scaleX := 1 \<rparr>;
          node2 = node1 \<lparr> node_scaleY := 1 \<rparr>;
          next = no_fields \<lparr> p_x := Some (snap st (node_x node2)),
                             p_y := Some (snap st (node_y node2)),
                             p_rotation := Some (node_rotation node2),
                             p_width := Some (max 10 (rect_width s * scaleX)),
                             p_height := Some (max 10 (rect_height s * scaleY)) \<rparr>
      in (node2, updateShape (shape_id s) next st))"

definition circle_onTransformEnd :: "CircleShape \<Rightarrow> Node \<Rightarrow> Editor \<Rightarrow> Node \<times> Editor" where
  "circle_onTransformEnd s node st =
     (let scaleX = node_scaleX node;
          node1 = node \<lparr> node_scaleX := 1 \<rparr>;
          node2 = node1 \<lparr> node_scaleY := 1 \<rparr>;
          nextRadius = max 5 (circle_radius s * scaleX)
      in (node2, updateShape (shape_id s)
                   (no_fields \<lparr> p_x := Some (snap st (node_x node2)),
                                p_y := Some (snap st (node_y node2)),
                                p_rotation := Some (node_rotation node2),
                                p_radius := Some nextRadius \<rparr>) st))"

definition text_onTransformEnd :: "TextShape \<Rightarrow> Node \<Rightarrow> Editor \<Rightarrow> Node \<times> Editor" where
  "text_onTransformEnd s node st =
     (let scaleX = node_scaleX node;
          node1 = node \<lparr> node_scaleX := 1 \<rparr>;
          node2 = node1 \<lparr> node_scaleY := 1 \<rparr>
      in (node2, updateShape (shape_id s)
                   (no_fields \<lparr> p_x := Some (snap st (node_x node2)),
                                p_y := Some (snap st (node_y node2)),
                                p_rotation := Some (node_rotation node2),
                                p_width := Some (max 50
                                  ((case text_width s of Some w \<Rightarrow> w | None \<Rightarrow> 300) * scaleX)) \<rparr>)
                   st))"

definition image_onTransformEnd :: "ImageShape \<Rightarrow> Node \<Rightarrow> Editor \<Rightarrow> Node \<times> Editor" where
  "image_onTransformEnd s node st =
     (let scaleX = node_scaleX node;
          scaleY = node_scaleY node;
          node1 = node \<lparr> node_scaleX := 1 \<rparr>;
          node2 = node1 \<lparr> node_scaleY := 1 \<rparr>
      in (node2, updateShape (shape_id s)
                   (no_fields \<lparr> p_x := Some (snap st (node_x node2)),
                                p_y := Some (snap st (node_y node2)),
                                p_rotation := Some (node_rotation node2),
                                p_width := Some (max 10 (image_width s * scaleX)),
                                p_height := Some (max 10 (image_height s * scaleY)) \<rparr>) st))"

section \<open>An example document\<close>

text \<open>
  The document after one click on each of Rect, Circle, Text and the upload of an image
  of 800 by 300 pixels that loads, with the shapes it holds, and a transformer node at the
  end of a resize gesture. The witnesses below evaluate the handlers on it.
\<close>

definition demo :: Editor where
  "demo =
     (let st = addText ''text_c'' (addCircle ''circle_b'' (addRect ''rect_a'' initial))
      in case onImageUpload ''img_d'' ''blob:d'' (Inr \<lparr> img_width = 800, img_height = 300 \<rparr>) st of
           Inr st' \<Rightarrow> st'
         | Inl e \<Rightarrow> st)"

definition demo_rect :: RectShape where
  "demo_rect = \<lparr> shape_id = ''rect_a'', shape_x = 200, shape_y = 150, shape_rotation = 0,
     shape_name = Some ''Rectangle'', shape_locked = None, shape_hidden = None,
     rect_width = 320, rect_height = 180, rect_fill = ''#ffd166'',
     rect_stroke = Some ''#111827'', rect_strokeWidth = Some 2, rect_cornerRadius = Some 12 \<rparr>"

definition demo_circle :: CircleShape where
  "demo_circle = \<lparr> shape_id = ''circle_b'', shape_x = 500, shape_y = 300, shape_rotation = 0,
     shape_name = Some ''Circle'', shape_locked = None, shape_hidden = None,
     circle_radius = 100, circle_fill = ''#a7f3d0'',
     circle_stroke = Some ''#111827'', circle_strokeWidth = Some 2 \<rparr>"

definition demo_text :: TextShape where
  "demo_text = \<lparr> shape_id = ''text_c'', shape_x = 240, shape_y = 180, shape_rotation = 0,
     shape_name = Some ''Text'', shape_locked = None, shape_hidden = None,
     text_text = ''Double'' @ [CHR 0xE2, CHR 0x80, CHR 0x91] @ ''tap to edit'',
     text_fontSize = 40, text_width = Some 600, text_fill = ''#111827'' \<rparr>"

definition demo_image :: ImageShape where
  "demo_image = \<lparr> shape_id = ''img_d'', shape_x = 260, shape_y = 220, shape_rotation = 0,
     shape_name = Some ''Image'', shape_locked = None, shape_hidden = None,
     image_width = 600, image_height = 300, image_src = ''blob:d'' \<rparr>"

definition demo_node :: Node where
  "demo_node = \<lparr> node_x = 320, node_y = 160, node_rotation = 15,
     node_scaleX = 2, node_scaleY = 1 / 100 \<rparr>"

section \<open>Properties of the history\<close>

lemma slice_last_snoc: "slice_last 49 h @ [p] = slice_last 50 (h @ [p])"
  by (simp add: slice_last_def Suc_diff_le)

lemma slice_last_idem_append:
  "slice_last n (slice_last n xs @ ys) = slice_last n (xs @ ys)"
proof -
  have "length xs + length ys - (length xs - n + n) + (length xs - n)
          = length xs + length ys - n"
    by arith
  then show ?thesis
    by (simp add: slice_last_def)
qed

lemma slice_last_short: "length xs \<le> n \<Longrightarrow> slice_last n xs = xs"
  by (simp add: slice_last_def)

lemma length_slice_last: "length (slice_last n xs) = min n (length xs)"
  by (simp add: slice_last_def)

lemma trajectory_nonempty: "trajectory ms s \<noteq> []"
  by (cases ms) simp_all

lemma length_trajectory: "length (trajectory ms s) = Suc (length ms)"
  by (induction ms arbitrary: s) simp_all

lemma shapes_run_commits: "shapes (run_commits ms st) = last (trajectory ms (shapes st))"
  by (induction ms arbitrary: st) (simp_all add: trajectory_nonempty commit_def Let_def)

lemma history_commit: "history (commit m st) = slice_last 50 (history st @ [shapes st])"
  by (simp add: commit_def Let_def slice_last_snoc)

lemma shapes_commit: "shapes (commit m st) = resolve m (shapes st)"
  by (simp add: commit_def Let_def)

lemma future_commit: "future (commit m st) = []"
  by (simp add: commit_def Let_def)

lemma history_run_commits:
  "length (history st) \<le> 50 \<Longrightarrow>
   history (run_commits ms st) =
     slice_last 50 (history st @ butlast (trajectory ms (shapes st)))"
proof (induction ms arbitrary: st)
  case Nil
  then show ?case by (simp add: slice_last_short)
next
  case (Cons m ms)
  have len: "length (history (commit m st)) \<le> 50"
    by (simp add: history_commit length_slice_last)
  have "history (run_commits (m # ms) st) =
          slice_last 50 (history (commit m st) @ butlast (trajectory ms (shapes (commit m st))))"
    using Cons.IH [OF len] by simp
  then show ?case
    by (simp add: history_commit shapes_commit slice_last_idem_append trajectory_nonempty)
qed

lemma history_run_commits_any:
  "ms \<noteq> [] \<Longrightarrow>
   history (run_commits ms st) =
     slice_last 50 (history st @ butlast (trajectory ms (shapes st)))"
proof (cases ms)
  case Nil
  assume "ms \<noteq> []"
  with Nil show ?thesis by simp
next
  case (Cons m ms')
  have len: "length (history (commit m st)) \<le> 50"
    by (simp add: history_commit length_slice_last)
  show ?thesis
    using history_run_commits [OF len, of ms']
    by (simp add: Cons history_commit shapes_commit slice_last_idem_append trajectory_nonempty)
qed

lemma future_run_commits: "ms \<noteq> [] \<Longrightarrow> future (run_commits ms st) = []"
proof (induction ms arbitrary: st)
  case Nil
  then show ?case by simp
next
  case (Cons m ms)
  show ?case
  proof (cases ms)
    case Nil
    then show ?thesis by (simp add: future_commit)
  next
    case (Cons a list)
    then show ?thesis using Cons.IH [of "commit m st"] by simp
  qed
qed

text \<open>Iterated \<open>undo\<close>: after \<open>k\<close> calls the current snapshot is the entry \<open>k\<close> places
  from the top of the past stack, the oldest entry once the stack is exhausted.\<close>

lemma history_undo: "history (undo st) = butlast (history st)"
  by (simp add: undo_def Let_def butlast_conv_take)

lemma shapes_undo: "shapes (undo st) = (if history st = [] then shapes st else last (history st))"
  by (simp add: undo_def Let_def last_conv_nth)

lemma future_undo:
  "future (undo st) = (if history st = [] then future st else take 50 (shapes st # future st))"
  by (simp add: undo_def Let_def)

lemma undo_funpow:
  "history ((undo ^^ k) st) = take (length (history st) - k) (history st) \<and>
   shapes ((undo ^^ k) st) = (history st @ [shapes st]) ! (length (history st) - k)"
proof (induction k arbitrary: st)
  case 0
  show ?case by (simp add: nth_append)
next
  case (Suc k)
  have step: "(undo ^^ Suc k) st = (undo ^^ k) (undo st)"
    by (simp add: funpow_swap1)
  show ?case
  proof (cases "history st" rule: rev_cases)
    case Nil
    then show ?thesis
      unfolding step using Suc.IH [of "undo st"]
      by (simp add: history_undo shapes_undo)
  next
    case (snoc hs x)
    have hu: "history (undo st) = hs" and su: "shapes (undo st) = x"
      by (simp_all add: history_undo shapes_undo snoc)
    have len: "length (history st) - Suc k = length hs - k"
      by (simp add: snoc)
    have "take (length hs - k) hs = take (length hs - k) (hs @ [x])"
      by simp
    moreover have "(hs @ [x]) ! (length hs - k) = ((hs @ [x]) @ [shapes st]) ! (length hs - k)"
      by (simp add: nth_append)
    ultimately show ?thesis
      unfolding step using Suc.IH [of "undo st"]
      by (simp add: hu su snoc)
  qed
qed

lemma future_undo_funpow:
  "k \<le> length (history st) \<Longrightarrow> length (future st) + k \<le> 50 \<Longrightarrow>
   future ((undo ^^ k) st) =
     drop (Suc (length (history st) - k)) (history st @ [shapes st]) @ future st"
proof (induction k arbitrary: st)
  case 0
  show ?case by simp
next
  case (Suc k)
  have step: "(undo ^^ Suc k) st = (undo ^^ k) (undo st)"
    by (simp add: funpow_swap1)
  from Suc.prems obtain hs x where snoc: "history st = hs @ [x]"
    by (cases "history st" rule: rev_cases) auto
  have hu: "history (undo st) = hs" and su: "shapes (undo st) = x"
    by (simp_all add: history_undo shapes_undo snoc)
  have fu: "future (undo st) = shapes st # future st"
    using Suc.prems by (simp add: future_undo snoc)
  have k: "k \<le> length hs" and l: "length (future (undo st)) + k \<le> 50"
    using Suc.prems by (simp_all add: snoc fu)
  have "future ((undo ^^ k) (undo st)) =
          drop (Suc (length hs - k)) (hs @ [x]) @ shapes st # future st"
    using Suc.IH [of "undo st"] k l by (simp only: hu su fu)
  also have "\<dots> = drop (Suc (length (history st) - Suc k)) (history st @ [shapes st]) @ future st"
  proof -
    have "Suc (length hs - k) - length (hs @ [x]) = 0"
      by simp
    then have "drop (Suc (length hs - k)) ((hs @ [x]) @ [shapes st]) =
            drop (Suc (length hs - k)) (hs @ [x]) @ [shapes st]"
      by (simp only: drop_append drop_0)
    then show ?thesis
      by (simp add: snoc)
  qed
  finally show ?case
    unfolding step .
qed

text \<open>Iterated \<open>redo\<close> walks down the future stack in the same way.\<close>

lemma future_redo: "future (redo st) = drop 1 (future st)"
  by (simp add: redo_def Let_def)

lemma shapes_redo: "shapes (redo st) = (if future st = [] then shapes st else hd (future st))"
  by (simp add: redo_def Let_def hd_conv_nth)

lemma redo_funpow:
  "future ((redo ^^ k) st) = drop k (future st) \<and>
   shapes ((redo ^^ k) st) = (shapes st # future st) ! (min k (length (future st)))"
proof (induction k arbitrary: st)
  case 0
  show ?case by simp
next
  case (Suc k)
  have step: "(redo ^^ Suc k) st = (redo ^^ k) (redo st)"
    by (simp add: funpow_swap1)
  show ?case
  proof (cases "future st")
    case Nil
    then show ?thesis
      unfolding step using Suc.IH [of "redo st"]
      by (simp add: future_redo shapes_redo)
  next
    case (Cons y ys)
    then show ?thesis
      unfolding step using Suc.IH [of "redo st"]
      by (simp add: future_redo shapes_redo)
  qed
qed

lemma last_trajectory_nth: "last (trajectory ms s) = trajectory ms s ! length ms"
  by (simp add: last_conv_nth trajectory_nonempty length_trajectory)

lemma trajectory_0: "trajectory ms s ! 0 = s"
  by (cases ms) simp_all

lemma bringForward_single:
  assumes "shapes st = [r]" and "id_of r = rid"
  shows "shapes (bringForward rid st) = [r]"
    and "history (bringForward rid st) = slice_last 50 (history st @ [[r]])"
  using assms
  by (simp_all add: bringForward_def shapes_commit history_commit bringForward_updater_def)

lemma bringForward_single_funpow:
  assumes "shapes st = [r]" and "id_of r = rid" and "length (history st) \<le> 50"
  shows "shapes ((bringForward rid ^^ k) st) = [r] \<and>
         history ((bringForward rid ^^ k) st) = slice_last 50 (history st @ replicate k [r])"
proof (induction k)
  case 0
  show ?case using assms by (simp add: slice_last_short)
next
  case (Suc k)
  have "replicate k [r] @ [[r]] = replicate (Suc k) [r]"
    by (simp add: replicate_append_same)
  then have "slice_last 50 (slice_last 50 (history st @ replicate k [r]) @ [[r]])
          = slice_last 50 (history st @ replicate (Suc k) [r])"
    by (simp only: slice_last_idem_append append_assoc)
  then show ?case
    using Suc bringForward_single [of "(bringForward rid ^^ k) st" r rid] assms(2)
    by simp
qed

text \<open>
  C1 (history round-trip), as stated: after \<open>n\<close> commits, \<open>n\<close> undos give back the starting
  snapshot. The past stack keeps 50 entries, so this fails for \<open>n = 51\<close>: a rectangle is
  added to the empty document and then brought forward fifty times (it is the only shape,
  so each of these commits leaves the snapshot as it is); the snapshot of the empty
  document is discarded by the 51st commit, and 51 undos end at the one-rectangle snapshot.
\<close>

theorem history_round_trip_counterexample:
  "shapes ((undo ^^ 51) ((bringForward ''rect_a'' ^^ 50) (addRect ''rect_a'' initial)))
     \<noteq> shapes initial"
proof -
  define st0 where "st0 = addRect ''rect_a'' initial"
  define r where "r = hd (shapes st0)"
  have s0: "shapes st0 = [r]" and h0: "history st0 = [[]]"
    by (simp_all add: r_def st0_def addRect_def commit_def initial_def slice_last_def)
  have idr: "id_of r = ''rect_a''"
    by (simp add: r_def st0_def addRect_def commit_def initial_def)
  define st1 where "st1 = (bringForward ''rect_a'' ^^ 50) st0"
  have "length (history st0) \<le> 50"
    by (simp add: h0)
  from bringForward_single_funpow [OF s0 idr this, of 50]
  have s1: "shapes st1 = [r]" and h1: "history st1 = replicate 50 [r]"
    by (simp_all add: st1_def h0 slice_last_def)
  have "shapes ((undo ^^ 51) st1) = [r]"
    using undo_funpow [of 51 st1] by (simp add: s1 h1 nth_append)
  then show ?thesis
    by (simp add: st1_def st0_def initial_def)
qed

text \<open>
  C1, amended: for every starting state and every sequence of at most 50 committed
  mutations, as many undos as there were commits restore the starting snapshot, and as
  many redos after that restore the final snapshot.
\<close>

theorem history_round_trip:
  assumes "length ms \<le> 50"
  shows "shapes ((undo ^^ length ms) (run_commits ms st)) = shapes st \<and>
         shapes ((redo ^^ length ms) ((undo ^^ length ms) (run_commits ms st)))
           = shapes (run_commits ms st)"
proof (cases "ms = []")
  case True
  then show ?thesis by simp
next
  case False
  define n where "n = length ms"
  define st' where "st' = run_commits ms st"
  define pres where "pres = butlast (trajectory ms (shapes st))"
  define H where "H = history st'"
  have n_pos: "0 < n" and n_le: "n \<le> 50"
    using False assms by (simp_all add: n_def)
  have len_pres: "length pres = n"
    by (simp add: pres_def length_trajectory n_def)
  have pres0: "pres ! 0 = shapes st"
    using n_pos len_pres
    by (simp add: pres_def nth_butlast trajectory_0)
  have H_eq: "H = slice_last 50 (history st @ pres)"
    unfolding H_def st'_def pres_def using False by (rule history_run_commits_any)
  have len_H: "n \<le> length H"
    using n_le by (simp add: H_eq length_slice_last len_pres)
  have H_at: "H ! (length H - n) = shapes st"
  proof -
    define d where "d = length (history st @ pres) - 50"
    have H_drop: "H = drop d (history st @ pres)"
      by (simp only: H_eq slice_last_def d_def)
    have d_le: "d \<le> length (history st @ pres)"
      by (simp add: d_def)
    have "length H = length (history st @ pres) - d"
      by (simp only: H_drop length_drop)
    then have idx: "d + (length H - n) = length (history st)"
      using n_le by (simp add: d_def len_pres)
    have "H ! (length H - n) = (history st @ pres) ! (d + (length H - n))"
      unfolding H_drop using d_le by (rule nth_drop)
    also have "\<dots> = pres ! 0"
      by (simp only: idx nth_append_length_plus [of "history st" pres 0, simplified])
    finally show ?thesis
      by (simp only: pres0)
  qed
  have undo_shapes: "shapes ((undo ^^ n) st') = shapes st"
  proof -
    have "shapes ((undo ^^ n) st') = (H @ [shapes st']) ! (length H - n)"
      using undo_funpow [of n st'] by (simp add: H_def)
    also have "\<dots> = H ! (length H - n)"
    proof -
      have "length H - n < length H"
        using n_pos len_H by arith
      then show ?thesis
        by (simp add: nth_append)
    qed
    finally show ?thesis using H_at by simp
  qed
  have fut0: "future st' = []"
    unfolding st'_def using False by (rule future_run_commits)
  have fut: "future ((undo ^^ n) st') = drop (Suc (length H - n)) (H @ [shapes st'])"
    using future_undo_funpow [of n st'] len_H n_le by (simp add: fut0 H_def)
  have len_fut: "length (future ((undo ^^ n) st')) = n"
    using len_H by (simp add: fut)
  have "shapes ((redo ^^ n) ((undo ^^ n) st'))
          = (shapes ((undo ^^ n) st') # future ((undo ^^ n) st')) ! n"
    using redo_funpow [of n "(undo ^^ n) st'"] by (simp add: len_fut)
  also have "\<dots> = future ((undo ^^ n) st') ! (n - 1)"
    using n_pos by (cases n) simp_all
  also have "\<dots> = (H @ [shapes st']) ! (Suc (length H - n) + (n - 1))"
    using len_H n_pos unfolding fut by (subst nth_drop) simp_all
  also have "Suc (length H - n) + (n - 1) = length H"
    using len_H n_pos by simp
  finally have "shapes ((redo ^^ n) ((undo ^^ n) st')) = shapes st'"
    by simp
  with undo_shapes show ?thesis
    by (simp add: n_def st'_def)
qed

theorem history_round_trip_witness:
  "length [Updater (bringForward_updater ''rect_a''), Updater (sendBackward_updater ''rect_a'')] \<le> 50 \<and>
   shapes ((undo ^^ 2) (run_commits
      [Updater (bringForward_updater ''rect_a''), Updater (sendBackward_updater ''rect_a'')]
      (addRect ''rect_a'' initial))) = shapes (addRect ''rect_a'' initial) \<and>
   shapes ((redo ^^ 2) ((undo ^^ 2) (run_commits
      [Updater (bringForward_updater ''rect_a''), Updater (sendBackward_updater ''rect_a'')]
      (addRect ''rect_a'' initial)))) =
   shapes (run_commits
      [Updater (bringForward_updater ''rect_a''), Updater (sendBackward_updater ''rect_a'')]
      (addRect ''rect_a'' initial))"
proof -
  have h: "length [Updater (bringForward_updater ''rect_a''),
                   Updater (sendBackward_updater ''rect_a'')] \<le> 50"
    by simp
  have two: "length [Updater (bringForward_updater ''rect_a''),
                   Updater (sendBackward_updater ''rect_a'')] = 2"
    by simp
  from history_round_trip [OF h, of "addRect ''rect_a'' initial"] h
  show ?thesis unfolding two by blast
qed

text \<open>
  C6 (bounded history). From an empty past stack, 60 commits leave exactly 50 entries:
  the snapshots number 10 to 59 of the trajectory, that is, those preceding the 50 most
  recent commits. However many times \<open>undo\<close> is called afterwards, the current snapshot
  is the one at position \<open>max 10 (60 - k)\<close> of the trajectory, so the positions 0 to 9
  (the ten oldest) are never reached.
\<close>

theorem bounded_history:
  assumes "history st = []" and "length ms = 60"
  shows "length (history (run_commits ms st)) = 50 \<and>
         history (run_commits ms st) = map (\<lambda>i. trajectory ms (shapes st) ! i) [10..<60] \<and>
         (\<forall>k. shapes ((undo ^^ k) (run_commits ms st))
                = trajectory ms (shapes st) ! (max 10 (60 - k)))"
proof -
  define traj where "traj = trajectory ms (shapes st)"
  define st' where "st' = run_commits ms st"
  have len_traj: "length traj = 61"
    using assms by (simp add: traj_def length_trajectory)
  have ne: "ms \<noteq> []"
    using assms by auto
  have H: "history st' = drop 10 (butlast traj)"
    unfolding st'_def traj_def
    using history_run_commits_any [OF ne, of st] assms
    by (simp add: slice_last_def length_trajectory)
  have len_H: "length (history st') = 50"
    by (simp add: H len_traj)
  have H_map: "history st' = map (\<lambda>i. traj ! i) [10..<60]"
  proof (rule nth_equalityI)
    show "length (history st') = length (map (\<lambda>i. traj ! i) [10..<60])"
      by (simp add: len_H del: upt_rec_numeral)
  next
    fix i assume "i < length (history st')"
    then have i: "i < 50" by (simp add: len_H)
    then show "history st' ! i = map (\<lambda>i. traj ! i) [10..<60] ! i"
      by (simp add: H len_traj nth_butlast nth_map_upt del: upt_rec_numeral)
  qed
  have cur: "shapes st' = traj ! 60"
    using assms by (simp add: st'_def traj_def shapes_run_commits last_trajectory_nth)
  have all: "history st' @ [shapes st'] = drop 10 traj"
  proof (rule nth_equalityI)
    show "length (history st' @ [shapes st']) = length (drop 10 traj)"
      by (simp add: len_H len_traj)
  next
    fix i assume "i < length (history st' @ [shapes st'])"
    then have i: "i < 51" by (simp add: len_H)
    show "(history st' @ [shapes st']) ! i = drop 10 traj ! i"
    proof (cases "i < 50")
      case True
      then show ?thesis by (simp add: nth_append len_H H len_traj nth_butlast)
    next
      case False
      with i have "i = 50" by simp
      then show ?thesis by (simp add: nth_append len_H cur len_traj)
    qed
  qed
  have "shapes ((undo ^^ k) st') = traj ! (max 10 (60 - k))" for k
  proof -
    have "shapes ((undo ^^ k) st') = (history st' @ [shapes st']) ! (50 - k)"
      using undo_funpow [of k st'] by (simp add: len_H)
    also have "\<dots> = traj ! (10 + (50 - k))"
      unfolding all by (simp add: len_traj)
    also have "10 + (50 - k) = max 10 (60 - k)"
      by simp
    finally show ?thesis .
  qed
  then show ?thesis
    using len_H H_map by (simp add: st'_def traj_def)
qed

theorem bounded_history_witness:
  "history initial = [] \<and>
   length (replicate 60 (Updater (bringForward_updater ''rect_a''))) = 60 \<and>
   length (history (run_commits (replicate 60 (Updater (bringForward_updater ''rect_a''))) initial)) = 50 \<and>
   shapes ((undo ^^ 60) (run_commits (replicate 60 (Updater (bringForward_updater ''rect_a''))) initial))
     = trajectory (replicate 60 (Updater (bringForward_updater ''rect_a''))) (shapes initial) ! 10"
proof -
  have h1: "history initial = []"
    by (simp add: initial_def)
  have h2: "length (replicate 60 (Updater (bringForward_updater ''rect_a''))) = 60"
    by simp
  have "max 10 (60 - 60) = (10::nat)"
    by simp
  with bounded_history [OF h1 h2] h1 h2 show ?thesis
    by metis
qed

text \<open>
  C7 (redo invalidation). Whatever the future stack holds, in particular when undos have
  left it non-empty, a commit leaves it empty, so \<open>canRedo\<close> is false right after it.
\<close>

theorem commit_clears_future:
  "future (commit nxt st) = [] \<and> \<not> canRedo (commit nxt st)"
  by (simp add: commit_def canRedo_def Let_def)

section \<open>The example document\<close>

lemma shapes_demo:
  "shapes demo = [Rect demo_rect, Circle demo_circle, Text demo_text, Image demo_image]"
  by (simp add: demo_def demo_rect_def demo_circle_def demo_text_def demo_image_def
      addRect_def addCircle_def addText_def onImageUpload_def commit_def initial_def Let_def)

lemma history_demo:
  "history demo = [[], [Rect demo_rect], [Rect demo_rect, Circle demo_circle],
                   [Rect demo_rect, Circle demo_circle, Text demo_text]]"
  by (simp add: demo_def demo_rect_def demo_circle_def demo_text_def demo_image_def
      addRect_def addCircle_def addText_def onImageUpload_def commit_def initial_def Let_def
      slice_last_def)

lemma grid_demo: "gridEnabled demo" "gridSize demo = 32"
  by (simp_all add: demo_def 
      addRect_def addCircle_def addText_def onImageUpload_def commit_def initial_def Let_def)

lemma snap_demo: "snap demo 320 = 320" "snap demo 160 = 160"
proof -
  have "\<lfloor>(320::real) / 32 + 1 / 2\<rfloor> = 10" and "\<lfloor>(160::real) / 32 + 1 / 2\<rfloor> = 5"
    by (simp_all add: floor_eq_iff)
  then show "snap demo 320 = 320" "snap demo 160 = 160"
    by (simp_all add: snap_def Math_round_def grid_demo)
qed

section \<open>Properties of the layer operations\<close>

lemma findIndex_snoc_last:
  "(\<forall>y \<in> set xs. \<not> P y) \<Longrightarrow> P x \<Longrightarrow> findIndex P (xs @ [x]) = int (length xs)"
  by (induction xs) (simp_all add: Let_def)

lemma findIndex_last_distinct:
  assumes "xs \<noteq> []" and "distinct (map id_of xs)"
  shows "findIndex (\<lambda>s. id_of s = id_of (last xs)) xs = int (length xs) - 1"
proof -
  from assms(1) obtain ys x where xs: "xs = ys @ [x]"
    by (cases xs rule: rev_cases) auto
  have "id_of x \<notin> id_of ` set ys"
    using assms(2) by (simp add: xs)
  then have "\<forall>y \<in> set ys. id_of y \<noteq> id_of x"
    by (metis image_eqI)
  then show ?thesis
    using findIndex_snoc_last [of ys "\<lambda>s. id_of s = id_of x" x] by (simp add: xs)
qed

lemma bringForward_updater_topmost:
  "xs \<noteq> [] \<Longrightarrow> distinct (map id_of xs) \<Longrightarrow> bringForward_updater (id_of (last xs)) xs = xs"
  by (simp add: bringForward_updater_def findIndex_last_distinct)

lemma sendBackward_updater_bottommost:
  "xs \<noteq> [] \<Longrightarrow> sendBackward_updater (id_of (hd xs)) xs = xs"
  by (cases xs) (simp_all add: sendBackward_updater_def)

lemma updateShape_absent:
  "sid \<notin> set (map id_of xs) \<Longrightarrow> map (\<lambda>s. if id_of s = sid then spread s partial else s) xs = xs"
  by (induction xs) auto

text \<open>
  C9 (reorder boundary no-ops), as stated, for every snapshot. The layer operations find
  the shape by its identifier, at the first index that carries it. In the snapshot
  rectangle, circle, rectangle, where both rectangles carry the same identifier,
  \<open>bringForward\<close> with the identifier of the shape at the last index finds index 0 and
  swaps the first rectangle with the circle.
\<close>

theorem reorder_boundary_noops_counterexample:
  "map id_of (shapes (addRect ''rect_a'' (addCircle ''circle_b'' (addRect ''rect_a'' initial))))
     = [''rect_a'', ''circle_b'', ''rect_a''] \<and>
   id_of (last (shapes (addRect ''rect_a'' (addCircle ''circle_b'' (addRect ''rect_a'' initial)))))
     = ''rect_a'' \<and>
   map id_of (shapes (bringForward ''rect_a''
       (addRect ''rect_a'' (addCircle ''circle_b'' (addRect ''rect_a'' initial)))))
     = [''circle_b'', ''rect_a'', ''rect_a''] \<and>
   shapes (bringForward ''rect_a''
       (addRect ''rect_a'' (addCircle ''circle_b'' (addRect ''rect_a'' initial))))
     \<noteq> shapes (addRect ''rect_a'' (addCircle ''circle_b'' (addRect ''rect_a'' initial)))"
  by (simp add: bringForward_def bringForward_updater_def addRect_def addCircle_def
      commit_def initial_def Let_def)

text \<open>
  C9, amended: for every non-empty snapshot, \<open>sendBackward\<close> on the shape at index 0
  leaves the shape sequence as it was, and so does \<open>bringForward\<close> on the shape at
  the last index when the identifiers of the snapshot are unique.
\<close>

theorem reorder_boundary_noops:
  assumes "shapes st \<noteq> []"
  shows "(distinct (map id_of (shapes st)) \<longrightarrow>
            shapes (bringForward (id_of (last (shapes st))) st) = shapes st) \<and>
         shapes (sendBackward (id_of (hd (shapes st))) st) = shapes st"
  using assms
  by (simp add: bringForward_def sendBackward_def shapes_commit
      bringForward_updater_topmost sendBackward_updater_bottommost)

theorem reorder_boundary_noops_witness:
  "shapes (addCircle ''circle_b'' (addRect ''rect_a'' initial)) \<noteq> [] \<and>
   distinct (map id_of (shapes (addCircle ''circle_b'' (addRect ''rect_a'' initial)))) \<and>
   shapes (bringForward ''circle_b'' (addCircle ''circle_b'' (addRect ''rect_a'' initial)))
     = shapes (addCircle ''circle_b'' (addRect ''rect_a'' initial)) \<and>
   shapes (sendBackward ''rect_a'' (addCircle ''circle_b'' (addRect ''rect_a'' initial)))
     = shapes (addCircle ''circle_b'' (addRect ''rect_a'' initial))"
proof -
  define st where "st = addCircle ''circle_b'' (addRect ''rect_a'' initial)"
  have h1: "shapes st \<noteq> []"
    by (simp add: st_def addCircle_def addRect_def commit_def initial_def)
  have h2: "distinct (map id_of (shapes st))"
    by (simp add: st_def addCircle_def addRect_def commit_def initial_def)
  have l: "id_of (last (shapes st)) = ''circle_b''" and f: "id_of (hd (shapes st)) = ''rect_a''"
    by (simp_all add: st_def addCircle_def addRect_def commit_def initial_def)
  have "shapes (bringForward ''circle_b'' st) = shapes st \<and>
        shapes (sendBackward ''rect_a'' st) = shapes st"
    using reorder_boundary_noops [OF h1] h2 by (simp only: l f simp_thms)
  with h1 h2 show ?thesis
    unfolding st_def by blast
qed

lemma commit_unchanged:
  assumes "resolve nxt (shapes st) = shapes st"
  shows "shapes (commit nxt st) = shapes st \<and>
         history (commit nxt st) = slice_last 49 (history st) @ [shapes st] \<and>
         length (history (commit nxt st)) = min 50 (length (history st) + 1) \<and>
         future (commit nxt st) = [] \<and>
         \<not> canRedo (commit nxt st) \<and>
         shapes (undo (commit nxt st)) = shapes (commit nxt st)"
proof -
  have "history (commit nxt st) = slice_last 49 (history st) @ [shapes st]"
    by (simp add: commit_def Let_def)
  moreover have "length (history (commit nxt st)) = min 50 (length (history st) + 1)"
    by (simp add: history_commit length_slice_last)
  moreover have "shapes (undo (commit nxt st)) = shapes st"
    by (simp add: shapes_undo history_commit slice_last_def)
  ultimately show ?thesis
    using assms by (simp add: shapes_commit future_commit canRedo_def)
qed

lemma bringForward_topmost_commit:
  assumes "shapes st \<noteq> []" and "distinct (map id_of (shapes st))"
  shows "shapes (bringForward (id_of (last (shapes st))) st) = shapes st \<and>
      history (bringForward (id_of (last (shapes st))) st)
        = slice_last 49 (history st) @ [shapes st] \<and>
      length (history (bringForward (id_of (last (shapes st))) st))
        = min 50 (length (history st) + 1) \<and>
      future (bringForward (id_of (last (shapes st))) st) = [] \<and>
      \<not> canRedo (bringForward (id_of (last (shapes st))) st) \<and>
      shapes (undo (bringForward (id_of (last (shapes st))) st))
        = shapes (bringForward (id_of (last (shapes st))) st)"
proof -
  have "resolve (Updater (bringForward_updater (id_of (last (shapes st))))) (shapes st)
               = shapes st"
    using assms by (simp add: bringForward_updater_topmost)
  then show ?thesis
    unfolding bringForward_def by (rule commit_unchanged)
qed

lemma updateShape_absent_commit:
  assumes "sid \<notin> set (map id_of (shapes st))"
  shows "shapes (updateShape sid partial st) = shapes st \<and>
      history (updateShape sid partial st) = slice_last 49 (history st) @ [shapes st] \<and>
      length (history (updateShape sid partial st)) = min 50 (length (history st) + 1) \<and>
      future (updateShape sid partial st) = [] \<and>
      \<not> canRedo (updateShape sid partial st) \<and>
      shapes (undo (updateShape sid partial st)) = shapes (updateShape sid partial st)"
proof -
  have "resolve (Updater (\<lambda>prev. map (\<lambda>s. if id_of s = sid then spread s partial else s) prev))
               (shapes st) = shapes st"
    using assms by (simp add: updateShape_absent)
  then show ?thesis
    unfolding updateShape_def by (rule commit_unchanged)
qed

text \<open>
  C10 (a commit that changes nothing still consumes history). Whenever the mutator
  returns the snapshot unchanged, \<open>commit\<close> pushes the snapshot onto the past stack
  (one more entry, up to the bound of 50), empties the future stack, so that \<open>canRedo\<close>
  is false, and the next \<open>undo\<close> restores a snapshot equal to the current one. This is
  the case of \<open>bringForward\<close> on the topmost shape and of \<open>updateShape\<close> with an
  identifier that no shape of the snapshot carries.
\<close>

theorem unchanged_commit_consumes_history:
  "(resolve nxt (shapes st) = shapes st \<longrightarrow>
      shapes (commit nxt st) = shapes st \<and>
      history (commit nxt st) = slice_last 49 (history st) @ [shapes st] \<and>
      length (history (commit nxt st)) = min 50 (length (history st) + 1) \<and>
      future (commit nxt st) = [] \<and>
      \<not> canRedo (commit nxt st) \<and>
      shapes (undo (commit nxt st)) = shapes (commit nxt st)) \<and>
   (shapes st \<noteq> [] \<and> distinct (map id_of (shapes st)) \<longrightarrow>
      shapes (bringForward (id_of (last (shapes st))) st) = shapes st \<and>
      history (bringForward (id_of (last (shapes st))) st)
        = slice_last 49 (history st) @ [shapes st] \<and>
      length (history (bringForward (id_of (last (shapes st))) st))
        = min 50 (length (history st) + 1) \<and>
      future (bringForward (id_of (last (shapes st))) st) = [] \<and>
      \<not> canRedo (bringForward (id_of (last (shapes st))) st) \<and>
      shapes (undo (bringForward (id_of (last (shapes st))) st))
        = shapes (bringForward (id_of (last (shapes st))) st)) \<and>
   (sid \<notin> set (map id_of (shapes st)) \<longrightarrow>
      shapes (updateShape sid partial st) = shapes st \<and>
      history (updateShape sid partial st) = slice_last 49 (history st) @ [shapes st] \<and>
      length (history (updateShape sid partial st)) = min 50 (length (history st) + 1) \<and>
      future (updateShape sid partial st) = [] \<and>
      \<not> canRedo (updateShape sid partial st) \<and>
      shapes (undo (updateShape sid partial st)) = shapes (updateShape sid partial st))"
  using commit_unchanged [of nxt st]
    bringForward_topmost_commit [of st]
    updateShape_absent_commit [of sid st partial]
  by blast

theorem unchanged_commit_consumes_history_witness:
  "canRedo (undo demo) \<and>
   resolve (Updater (sendBackward_updater ''rect_a'')) (shapes (undo demo)) = shapes (undo demo) \<and>
   shapes (undo demo) \<noteq> [] \<and>
   distinct (map id_of (shapes (undo demo))) \<and>
   ''ghost'' \<notin> set (map id_of (shapes (undo demo))) \<and>
   shapes (commit (Updater (sendBackward_updater ''rect_a'')) (undo demo)) = shapes (undo demo) \<and>
   \<not> canRedo (commit (Updater (sendBackward_updater ''rect_a'')) (undo demo)) \<and>
   id_of (last (shapes (undo demo))) = ''text_c'' \<and>
   shapes (bringForward ''text_c'' (undo demo)) = shapes (undo demo) \<and>
   length (history (bringForward ''text_c'' (undo demo))) = 4 \<and>
   \<not> canRedo (bringForward ''text_c'' (undo demo)) \<and>
   shapes (undo (bringForward ''text_c'' (undo demo))) = shapes (undo demo) \<and>
   shapes (updateShape ''ghost'' (no_fields \<lparr> p_x := Some 500 \<rparr>) (undo demo)) = shapes (undo demo) \<and>
   \<not> canRedo (updateShape ''ghost'' (no_fields \<lparr> p_x := Some 500 \<rparr>) (undo demo)) \<and>
   shapes (undo (updateShape ''ghost'' (no_fields \<lparr> p_x := Some 500 \<rparr>) (undo demo)))
     = shapes (undo demo)"
proof -
  define st where "st = undo demo"
  have sh: "shapes st = [Rect demo_rect, Circle demo_circle, Text demo_text]"
    by (simp add: st_def shapes_undo history_demo)
  have hi: "history st = [[], [Rect demo_rect], [Rect demo_rect, Circle demo_circle]]"
    by (simp add: st_def history_undo history_demo)
  have ids: "map id_of (shapes st) = [''rect_a'', ''circle_b'', ''text_c'']"
    by (simp add: sh demo_rect_def demo_circle_def demo_text_def)
  have cr: "canRedo st"
    by (simp add: st_def canRedo_def future_undo history_demo)
  have h1: "resolve (Updater (sendBackward_updater ''rect_a'')) (shapes st) = shapes st"
    using sendBackward_updater_bottommost [of "shapes st"] ids by (simp add: sh)
  have h2: "shapes st \<noteq> [] \<and> distinct (map id_of (shapes st))"
    by (simp add: ids) (simp add: sh)
  have h3: "''ghost'' \<notin> set (map id_of (shapes st))"
    by (simp add: ids)
  have l: "id_of (last (shapes st)) = ''text_c''"
    by (simp add: sh demo_text_def)
  have len: "min 50 (length (history st) + 1) = 4"
    by (simp add: hi)
  note T = unchanged_commit_consumes_history
         [of "Updater (sendBackward_updater ''rect_a'')" st "''ghost''" "no_fields \<lparr> p_x := Some 500 \<rparr>",
          unfolded l len]
  from T h1 have A:
    "shapes (commit (Updater (sendBackward_updater ''rect_a'')) st) = shapes st \<and>
     \<not> canRedo (commit (Updater (sendBackward_updater ''rect_a'')) st)"
    by blast
  from T h2 have B:
    "shapes (bringForward ''text_c'' st) = shapes st \<and>
     length (history (bringForward ''text_c'' st)) = 4 \<and>
     \<not> canRedo (bringForward ''text_c'' st) \<and>
     shapes (undo (bringForward ''text_c'' st)) = shapes (bringForward ''text_c'' st)"
    by blast
  from T h3 have C:
    "shapes (updateShape ''ghost'' (no_fields \<lparr> p_x := Some 500 \<rparr>) st) = shapes st \<and>
     \<not> canRedo (updateShape ''ghost'' (no_fields \<lparr> p_x := Some 500 \<rparr>) st) \<and>
     shapes (undo (updateShape ''ghost'' (no_fields \<lparr> p_x := Some 500 \<rparr>) st))
       = shapes (updateShape ''ghost'' (no_fields \<lparr> p_x := Some 500 \<rparr>) st)"
    by blast
  have "canRedo st \<and>
   resolve (Updater (sendBackward_updater ''rect_a'')) (shapes st) = shapes st \<and>
   shapes st \<noteq> [] \<and>
   distinct (map id_of (shapes st)) \<and>
   ''ghost'' \<notin> set (map id_of (shapes st)) \<and>
   shapes (commit (Updater (sendBackward_updater ''rect_a'')) st) = shapes st \<and>
   \<not> canRedo (commit (Updater (sendBackward_updater ''rect_a'')) st) \<and>
   id_of (last (shapes st)) = ''text_c'' \<and>
   shapes (bringForward ''text_c'' st) = shapes st \<and>
   length (history (bringForward ''text_c'' st)) = 4 \<and>
   \<not> canRedo (bringForward ''text_c'' st) \<and>
   shapes (undo (bringForward ''text_c'' st)) = shapes st \<and>
   shapes (updateShape ''ghost'' (no_fields \<lparr> p_x := Some 500 \<rparr>) st) = shapes st \<and>
   \<not> canRedo (updateShape ''ghost'' (no_fields \<lparr> p_x := Some 500 \<rparr>) st) \<and>
   shapes (undo (updateShape ''ghost'' (no_fields \<lparr> p_x := Some 500 \<rparr>) st))
     = shapes st"
    using A B C cr h1 h2 h3 l by metis
  then show ?thesis
    unfolding st_def .
qed

section \<open>Properties of the add handlers\<close>

text \<open>
  C2 (duplicate identifiers), as stated: adding a shape whose identifier is already in
  the snapshot is rejected and the snapshot is not extended. The handlers have no such
  check: adding a rectangle with the identifier of the rectangle already present yields a
  snapshot of two shapes with the same identifier.
\<close>

theorem add_duplicate_id_counterexample:
  "''rect_a'' \<in> set (map id_of (shapes (addRect ''rect_a'' initial))) \<and>
   map id_of (shapes (addRect ''rect_a'' (addRect ''rect_a'' initial))) = [''rect_a'', ''rect_a''] \<and>
   length (shapes (addRect ''rect_a'' (addRect ''rect_a'' initial)))
     = Suc (length (shapes (addRect ''rect_a'' initial)))"
  by (simp add: addRect_def commit_def initial_def Let_def)

text \<open>
  C2, amended: adding a shape whose identifier already exists in the snapshot is not
  rejected. \<open>addRect\<close>, \<open>addCircle\<close> and \<open>addText\<close>, and \<open>onImageUpload\<close> once its
  image has loaded, commit the snapshot extended by the new shape at the end, as they do
  for a fresh identifier.
\<close>

theorem add_existing_id_appends:
  assumes "new_id \<in> set (map id_of (shapes st))"
  shows "(\<exists>s. shapes (addRect new_id st) = shapes st @ [s] \<and> id_of s = new_id) \<and>
         (\<exists>s. shapes (addCircle new_id st) = shapes st @ [s] \<and> id_of s = new_id) \<and>
         (\<exists>s. shapes (addText new_id st) = shapes st @ [s] \<and> id_of s = new_id) \<and>
         (\<exists>s st'. onImageUpload new_id url (Inr img) st = Inr st' \<and>
                   shapes st' = shapes st @ [s] \<and> id_of s = new_id)"
  by (simp add: addRect_def addCircle_def addText_def onImageUpload_def commit_def Let_def)

theorem add_existing_id_appends_witness:
  "''rect_a'' \<in> set (map id_of (shapes (addRect ''rect_a'' initial))) \<and>
   (\<exists>s. shapes (addRect ''rect_a'' (addRect ''rect_a'' initial))
          = shapes (addRect ''rect_a'' initial) @ [s] \<and> id_of s = ''rect_a'') \<and>
   (\<exists>s st'. onImageUpload ''rect_a'' ''blob:d'' (Inr \<lparr> img_width = 800, img_height = 300 \<rparr>)
               (addRect ''rect_a'' initial) = Inr st' \<and>
             shapes st' = shapes (addRect ''rect_a'' initial) @ [s] \<and> id_of s = ''rect_a'')"
proof -
  have h: "''rect_a'' \<in> set (map id_of (shapes (addRect ''rect_a'' initial)))"
    by (simp add: addRect_def commit_def initial_def Let_def)
  from add_existing_id_appends
         [OF h, of "''blob:d''" "\<lparr> img_width = 800, img_height = 300 \<rparr>"] h
  show ?thesis
    by blast
qed

section \<open>Properties of the viewport\<close>

text \<open>
  C3 (scale within [0.1, 4]), as stated, for \<open>fitToScreen\<close>: a container of 160 by 90
  pixels is fitted at scale 1/12, below 0.1.
\<close>

theorem viewport_scale_counterexample:
  "\<not> (1 / 10 \<le> scale (fitToScreen \<lparr> width = 160, height = 90 \<rparr> initial) \<and>
      scale (fitToScreen \<lparr> width = 160, height = 90 \<rparr> initial) \<le> 4)"
  by (simp add: fitToScreen_def initial_def SLIDE_W_def SLIDE_H_def Let_def)

text \<open>
  C3, amended: after \<open>zoomBy\<close> on a mounted stage, with any factor, the scale lies in
  [0.1, 4]; \<open>fitToScreen\<close> with a nonzero container size sets the scale to
  \<open>min (width / 1920) (height / 1080)\<close>, which is not clamped.
\<close>

theorem viewport_scale_bounds:
  "1 / 10 \<le> scale (zoomBy (Some stage) csize factor center st) \<and>
   scale (zoomBy (Some stage) csize factor center st) \<le> 4 \<and>
   (width csize \<noteq> 0 \<and> height csize \<noteq> 0 \<longrightarrow>
      scale (fitToScreen csize st) = min (width csize / 1920) (height csize / 1080))"
  by (simp add: zoomBy_def fitToScreen_def clamp_def Let_def SLIDE_W_def SLIDE_H_def)

theorem viewport_scale_bounds_witness:
  "width \<lparr> width = 160, height = 90 \<rparr> \<noteq> 0 \<and> height \<lparr> width = 160, height = 90 \<rparr> \<noteq> 0 \<and>
   scale (fitToScreen \<lparr> width = 160, height = 90 \<rparr> initial) = 1 / 12 \<and>
   scale (zoomBy (Some \<lparr> pointerPosition = None \<rparr>) \<lparr> width = 160, height = 90 \<rparr> 100 None initial) = 4"
proof -
  have h: "width \<lparr> width = 160, height = 90 \<rparr> \<noteq> 0 \<and> height \<lparr> width = 160, height = 90 \<rparr> \<noteq> 0"
    by simp
  have z: "scale (zoomBy (Some \<lparr> pointerPosition = None \<rparr>) \<lparr> width = 160, height = 90 \<rparr> 100 None initial) = 4"
    by (simp add: zoomBy_def clamp_def initial_def Let_def)
  from viewport_scale_bounds [of "\<lparr> pointerPosition = None \<rparr>" "\<lparr> width = 160, height = 90 \<rparr>" 100 None initial] h z
  show ?thesis by simp
qed

text \<open>
  C5 (zoom anchor invariance). For a viewport whose scale is in [0.1, 4], every anchor
  point and every factor, the anchor converts to the same document point after
  \<open>zoomBy\<close> as before, exactly, also when the new scale is clamped.
\<close>

theorem zoom_anchor_invariance:
  assumes "1 / 10 \<le> scale st" and "scale st \<le> 4"
  shows "toDocument p (zoomBy (Some stage) csize factor (Some p) st) = toDocument p st"
proof -
  define ns where "ns = clamp (scale st * factor) (1 / 10) 4"
  have ns: "ns \<noteq> 0"
    by (simp add: ns_def clamp_def max_def min_def)
  have sc: "scale st \<noteq> 0"
    using assms by auto
  show ?thesis
    using ns sc by (simp add: toDocument_def zoomBy_def Let_def ns_def [symmetric])
qed

theorem zoom_anchor_invariance_witness:
  "1 / 10 \<le> scale initial \<and> scale initial \<le> 4 \<and>
   scale (zoomBy (Some \<lparr> pointerPosition = None \<rparr>) \<lparr> width = 800, height = 600 \<rparr> 100
            (Some \<lparr> pt_x = 100, pt_y = 50 \<rparr>) initial) = 4 \<and>
   toDocument \<lparr> pt_x = 100, pt_y = 50 \<rparr>
     (zoomBy (Some \<lparr> pointerPosition = None \<rparr>) \<lparr> width = 800, height = 600 \<rparr> 100
        (Some \<lparr> pt_x = 100, pt_y = 50 \<rparr>) initial)
     = toDocument \<lparr> pt_x = 100, pt_y = 50 \<rparr> initial"
proof -
  have h1: "1 / 10 \<le> scale initial" and h2: "scale initial \<le> 4"
    by (simp_all add: initial_def)
  have z: "scale (zoomBy (Some \<lparr> pointerPosition = None \<rparr>) \<lparr> width = 800, height = 600 \<rparr> 100
            (Some \<lparr> pt_x = 100, pt_y = 50 \<rparr>) initial) = 4"
    by (simp add: zoomBy_def clamp_def initial_def Let_def)
  from zoom_anchor_invariance [OF h1 h2] h1 h2 z show ?thesis
    by blast
qed

section \<open>Properties of the alignment\<close>

lemma x_of_spread: "x_of (spread s p) = over (p_x p) (x_of s)"
  by (cases s) simp_all

lemma y_of_spread: "y_of (spread s p) = over (p_y p) (y_of s)"
  by (cases s) simp_all

lemma find_Some_id: "find (\<lambda>x. id_of x = sel) xs = Some s \<Longrightarrow> id_of s = sel \<and> s \<in> set xs"
  by (induction xs) (auto split: if_splits)

lemma shapes_updateShape:
  "shapes (updateShape sid partial st)
     = map (\<lambda>s. if id_of s = sid then spread s partial else s) (shapes st)"
  by (simp add: updateShape_def shapes_commit)

lemma align_target_horizontal:
  "dir \<in> {Left, CenterX, Right} \<Longrightarrow> snd (align_target dir s) = y_of s"
  by (cases dir) (simp_all add: align_target_def Let_def split: prod.splits)

lemma align_target_vertical:
  "dir \<in> {Top, CenterY, Bottom} \<Longrightarrow> fst (align_target dir s) = x_of s"
  by (cases dir) (simp_all add: align_target_def Let_def split: prod.splits)

lemma alignSelected_unfold:
  assumes "selectedId st = Some sel" and "sel \<noteq> []"
    and "find (\<lambda>x. id_of x = sel) (shapes st) = Some s"
  shows "alignSelected dir st =
           updateShape sel
             (no_fields \<lparr> p_x := Some (snap st (fst (align_target dir s))),
                          p_y := Some (snap st (snd (align_target dir s))) \<rparr>) st"
proof -
  have ids: "id_of s = sel"
    using find_Some_id [OF assms(3)] by (rule conjunct1)
  show ?thesis
    apply (subst alignSelected_def)
    apply (simp only: assms(1) option.case)
    apply (simp only: assms(2) if_False)
    apply (simp only: assms(3) option.case)
    apply (simp only: split_beta Let_def)
    apply (simp only: ids)
    done
qed

lemma addRect_initial:
  "shapes (addRect ''rect_a'' initial) =
     [Rect \<lparr> shape_id = ''rect_a'', shape_x = 200, shape_y = 150, shape_rotation = 0,
                shape_name = Some ''Rectangle'', shape_locked = None, shape_hidden = None,
                rect_width = 320, rect_height = 180, rect_fill = ''#ffd166'',
                rect_stroke = Some ''#111827'', rect_strokeWidth = Some 2,
                rect_cornerRadius = Some 12 \<rparr>]"
  "selectedId (addRect ''rect_a'' initial) = Some ''rect_a''"
  "gridEnabled (addRect ''rect_a'' initial) = True"
  "gridSize (addRect ''rect_a'' initial) = 32"
  by (simp_all add: addRect_def commit_def initial_def Let_def)

lemma snap_150: "snap (addRect ''rect_a'' initial) 150 = 160"
proof -
  have "\<lfloor>(150::real) / 32 + 1 / 2\<rfloor> = 5"
    by (simp add: floor_eq_iff)
  then show ?thesis
    by (simp add: snap_def Math_round_def addRect_initial)
qed

text \<open>
  C4 (alignment frame condition), as stated: the coordinate on the orthogonal axis is
  left unchanged. \<open>alignSelected\<close> passes both coordinates through \<open>snap\<close>: the
  default rectangle sits at \<open>y = 150\<close>, and aligning it to the left with the default
  grid (enabled, size 32) moves it to \<open>y = 160\<close>.
\<close>

theorem align_orthogonal_axis_counterexample:
  "y_of (hd (shapes (addRect ''rect_a'' initial))) = 150 \<and>
   y_of (hd (shapes (alignSelected Left (addRect ''rect_a'' initial)))) = 160"
proof -
  define st where "st = addRect ''rect_a'' initial"
  define r where "r = hd (shapes st)"
  have sh: "shapes st = [r]"
    by (simp add: r_def st_def addRect_initial)
  have idr: "id_of r = ''rect_a''" and yr: "y_of r = 150"
    by (simp_all add: r_def st_def addRect_initial)
  have sel: "selectedId st = Some ''rect_a''"
    by (simp add: st_def addRect_initial)
  have ne: "''rect_a'' \<noteq> []"
    by simp
  have fnd: "find (\<lambda>x. id_of x = ''rect_a'') (shapes st) = Some r"
    by (simp add: sh idr)
  have tgt: "snd (align_target Left r) = y_of r"
    by (rule align_target_horizontal) simp
  have "shapes (alignSelected Left st) = [aligned st Left r]"
    by (simp only: alignSelected_unfold [OF sel ne fnd] shapes_updateShape sh idr list.map
        refl if_True)
  then have "y_of (hd (shapes (alignSelected Left st))) = snap st 150"
    by (simp add: y_of_spread tgt yr)
  then show ?thesis
    using snap_150 yr by (simp add: st_def r_def)
qed

text \<open>
  C4, amended: for the selected shape and every direction, the coordinate on the
  orthogonal axis becomes \<open>snap\<close> of its prior value; it is left unchanged when grid
  snapping is disabled. The first conjunct gives the whole snapshot after the alignment.
\<close>

theorem align_orthogonal_axis:
  assumes "selectedId st = Some sel" and "sel \<noteq> []"
    and "find (\<lambda>x. id_of x = sel) (shapes st) = Some s"
  shows "shapes (alignSelected dir st)
           = map (\<lambda>t. if id_of t = sel then
                   spread t (no_fields \<lparr> p_x := Some (snap st (fst (align_target dir s))),
                          p_y := Some (snap st (snd (align_target dir s))) \<rparr>) else t) (shapes st) \<and>
         (dir \<in> {Left, CenterX, Right} \<longrightarrow>
            y_of (aligned st dir s) = snap st (y_of s) \<and>
            (\<not> gridEnabled st \<longrightarrow> y_of (aligned st dir s) = y_of s)) \<and>
         (dir \<in> {Top, CenterY, Bottom} \<longrightarrow>
            x_of (aligned st dir s) = snap st (x_of s) \<and>
            (\<not> gridEnabled st \<longrightarrow> x_of (aligned st dir s) = x_of s))"
proof (intro conjI)
  show "shapes (alignSelected dir st)
           = map (\<lambda>t. if id_of t = sel then
                   spread t (no_fields \<lparr> p_x := Some (snap st (fst (align_target dir s))),
                          p_y := Some (snap st (snd (align_target dir s))) \<rparr>) else t) (shapes st)"
    by (simp only: alignSelected_unfold [OF assms] shapes_updateShape)
next
  show "dir \<in> {Left, CenterX, Right} \<longrightarrow>
            y_of (aligned st dir s) = snap st (y_of s) \<and>
            (\<not> gridEnabled st \<longrightarrow> y_of (aligned st dir s) = y_of s)"
    using align_target_horizontal [of dir s]
    by (simp add: y_of_spread snap_def)
next
  show "dir \<in> {Top, CenterY, Bottom} \<longrightarrow>
            x_of (aligned st dir s) = snap st (x_of s) \<and>
            (\<not> gridEnabled st \<longrightarrow> x_of (aligned st dir s) = x_of s)"
    using align_target_vertical [of dir s]
    by (simp add: x_of_spread snap_def)
qed

theorem align_orthogonal_axis_witness:
  "selectedId (addRect ''rect_a'' initial) = Some ''rect_a'' \<and> ''rect_a'' \<noteq> [] \<and>
   find (\<lambda>x. id_of x = ''rect_a'') (shapes (addRect ''rect_a'' initial))
     = Some (hd (shapes (addRect ''rect_a'' initial))) \<and>
   Left \<in> {Left, CenterX, Right} \<and>
   y_of (aligned (addRect ''rect_a'' initial) Left (hd (shapes (addRect ''rect_a'' initial))))
     = snap (addRect ''rect_a'' initial) (y_of (hd (shapes (addRect ''rect_a'' initial)))) \<and>
   Top \<in> {Top, CenterY, Bottom} \<and>
   x_of (aligned (addRect ''rect_a'' initial) Top (hd (shapes (addRect ''rect_a'' initial))))
     = snap (addRect ''rect_a'' initial) (x_of (hd (shapes (addRect ''rect_a'' initial))))"
proof -
  define st where "st = addRect ''rect_a'' initial"
  define r where "r = hd (shapes st)"
  have sel: "selectedId st = Some ''rect_a''"
    by (simp add: st_def addRect_initial)
  have ne: "''rect_a'' \<noteq> []"
    by simp
  have fnd: "find (\<lambda>x. id_of x = ''rect_a'') (shapes st) = Some r"
    by (simp add: r_def st_def addRect_initial)
  have l: "Left \<in> {Left, CenterX, Right}" and t: "Top \<in> {Top, CenterY, Bottom}"
    by simp_all
  from align_orthogonal_axis [OF sel ne fnd, of Left] l
  have a: "y_of (aligned st Left r) = snap st (y_of r)"
    by blast
  from align_orthogonal_axis [OF sel ne fnd, of Top] t
  have b: "x_of (aligned st Top r) = snap st (x_of r)"
    by blast
  from sel ne fnd l t a b show ?thesis
    unfolding st_def r_def by blast
qed

section \<open>Properties of the resize reconciliation\<close>

lemma spread_mem:
  assumes "s \<in> set (shapes st)"
  shows "spread s p \<in> set (shapes (updateShape (id_of s) p st))"
proof -
  have "(\<lambda>t. if id_of t = id_of s then spread t p else t) s \<in>
          (\<lambda>t. if id_of t = id_of s then spread t p else t) ` set (shapes st)"
    using assms by (rule imageI)
  then show ?thesis
    by (simp add: shapes_updateShape)
qed

lemma rect_resize:
  assumes "Rect r \<in> set (shapes st)"
  shows "Rect (r \<lparr> shape_x := snap st (node_x node), shape_y := snap st (node_y node),
                   shape_rotation := node_rotation node,
                   rect_width := max 10 (rect_width r * node_scaleX node),
                   rect_height := max 10 (rect_height r * node_scaleY node) \<rparr>)
           \<in> set (shapes (snd (rect_onTransformEnd r node st))) \<and>
         fst (rect_onTransformEnd r node st) = node \<lparr> node_scaleX := 1, node_scaleY := 1 \<rparr>"
proof -
  define p where "p = no_fields \<lparr> p_x := Some (snap st (node_x node)),
                             p_y := Some (snap st (node_y node)),
                             p_rotation := Some (node_rotation node),
                             p_width := Some (max 10 (rect_width r * node_scaleX node)),
                             p_height := Some (max 10 (rect_height r * node_scaleY node)) \<rparr>"
  have run: "rect_onTransformEnd r node st =
          (node \<lparr> node_scaleX := 1, node_scaleY := 1 \<rparr>, updateShape (id_of (Rect r)) p st)"
    by (simp add: rect_onTransformEnd_def Let_def p_def)
  have "spread (Rect r) p =
          Rect (r \<lparr> shape_x := snap st (node_x node), shape_y := snap st (node_y node),
                   shape_rotation := node_rotation node,
                   rect_width := max 10 (rect_width r * node_scaleX node),
                   rect_height := max 10 (rect_height r * node_scaleY node) \<rparr>)"
    by (simp add: p_def no_fields_def)
  then show ?thesis
    using spread_mem [OF assms, of p] by (simp only: run fst_conv snd_conv simp_thms)
qed

lemma circle_resize:
  assumes "Circle c \<in> set (shapes st)"
  shows "Circle (c \<lparr> shape_x := snap st (node_x node), shape_y := snap st (node_y node),
                     shape_rotation := node_rotation node,
                     circle_radius := max 5 (circle_radius c * node_scaleX node) \<rparr>)
           \<in> set (shapes (snd (circle_onTransformEnd c node st))) \<and>
         fst (circle_onTransformEnd c node st) = node \<lparr> node_scaleX := 1, node_scaleY := 1 \<rparr>"
proof -
  define p where "p = no_fields \<lparr> p_x := Some (snap st (node_x node)),
                             p_y := Some (snap st (node_y node)),
                             p_rotation := Some (node_rotation node),
                             p_radius := Some (max 5 (circle_radius c * node_scaleX node)) \<rparr>"
  have run: "circle_onTransformEnd c node st =
          (node \<lparr> node_scaleX := 1, node_scaleY := 1 \<rparr>, updateShape (id_of (Circle c)) p st)"
    by (simp add: circle_onTransformEnd_def Let_def p_def)
  have "spread (Circle c) p =
          Circle (c \<lparr> shape_x := snap st (node_x node), shape_y := snap st (node_y node),
                     shape_rotation := node_rotation node,
                     circle_radius := max 5 (circle_radius c * node_scaleX node) \<rparr>)"
    by (simp add: p_def no_fields_def)
  then show ?thesis
    using spread_mem [OF assms, of p] by (simp only: run fst_conv snd_conv simp_thms)
qed

lemma text_resize:
  assumes "Text t \<in> set (shapes st)"
  shows "Text (t \<lparr> shape_x := snap st (node_x node), shape_y := snap st (node_y node),
                   shape_rotation := node_rotation node,
                   text_width := Some (max 50
                     ((case text_width t of Some w \<Rightarrow> w | None \<Rightarrow> 300) * node_scaleX node)) \<rparr>)
           \<in> set (shapes (snd (text_onTransformEnd t node st))) \<and>
         fst (text_onTransformEnd t node st) = node \<lparr> node_scaleX := 1, node_scaleY := 1 \<rparr>"
proof -
  define p where "p = no_fields \<lparr> p_x := Some (snap st (node_x node)),
                             p_y := Some (snap st (node_y node)),
                             p_rotation := Some (node_rotation node),
                             p_width := Some (max 50
                     ((case text_width t of Some w \<Rightarrow> w | None \<Rightarrow> 300) * node_scaleX node)) \<rparr>"
  have run: "text_onTransformEnd t node st =
          (node \<lparr> node_scaleX := 1, node_scaleY := 1 \<rparr>, updateShape (id_of (Text t)) p st)"
    by (simp add: text_onTransformEnd_def Let_def p_def)
  have "spread (Text t) p =
          Text (t \<lparr> shape_x := snap st (node_x node), shape_y := snap st (node_y node),
                   shape_rotation := node_rotation node,
                   text_width := Some (max 50
                     ((case text_width t of Some w \<Rightarrow> w | None \<Rightarrow> 300) * node_scaleX node)) \<rparr>)"
    by (simp add: p_def no_fields_def)
  then show ?thesis
    using spread_mem [OF assms, of p] by (simp only: run fst_conv snd_conv simp_thms)
qed

lemma image_resize:
  assumes "Image i \<in> set (shapes st)"
  shows "Image (i \<lparr> shape_x := snap st (node_x node), shape_y := snap st (node_y node),
                    shape_rotation := node_rotation node,
                    image_width := max 10 (image_width i * node_scaleX node),
                    image_height := max 10 (image_height i * node_scaleY node) \<rparr>)
           \<in> set (shapes (snd (image_onTransformEnd i node st))) \<and>
         fst (image_onTransformEnd i node st) = node \<lparr> node_scaleX := 1, node_scaleY := 1 \<rparr>"
proof -
  define p where "p = no_fields \<lparr> p_x := Some (snap st (node_x node)),
                             p_y := Some (snap st (node_y node)),
                             p_rotation := Some (node_rotation node),
                             p_width := Some (max 10 (image_width i * node_scaleX node)),
                             p_height := Some (max 10 (image_height i * node_scaleY node)) \<rparr>"
  have run: "image_onTransformEnd i node st =
          (node \<lparr> node_scaleX := 1, node_scaleY := 1 \<rparr>, updateShape (id_of (Image i)) p st)"
    by (simp add: image_onTransformEnd_def Let_def p_def)
  have "spread (Image i) p =
          Image (i \<lparr> shape_x := snap st (node_x node), shape_y := snap st (node_y node),
                    shape_rotation := node_rotation node,
                    image_width := max 10 (image_width i * node_scaleX node),
                    image_height := max 10 (image_height i * node_scaleY node) \<rparr>)"
    by (simp add: p_def no_fields_def)
  then show ?thesis
    using spread_mem [OF assms, of p] by (simp only: run fst_conv snd_conv simp_thms)
qed

text \<open>
  C8 (resize reconciliation floors). At the end of a transform of a shape of the current
  snapshot, the committed snapshot holds the shape with its absolute size: the original
  size times the reported scale factor, floored at 10 for the width and height of a
  rectangle or image, at 5 for the radius of a circle and at 50 for the width of a text
  box (whose width counts as 300 when it has none). The handler leaves the node with both
  scale factors reset to 1, and a shape has no scale field that could hold one.
\<close>

theorem resize_reconciliation:
  "(Rect r \<in> set (shapes st) \<longrightarrow>
      Rect (r \<lparr> shape_x := snap st (node_x node), shape_y := snap st (node_y node),
                 shape_rotation := node_rotation node,
                 rect_width := max 10 (rect_width r * node_scaleX node),
                 rect_height := max 10 (rect_height r * node_scaleY node) \<rparr>)
        \<in> set (shapes (snd (rect_onTransformEnd r node st))) \<and>
      fst (rect_onTransformEnd r node st) = node \<lparr> node_scaleX := 1, node_scaleY := 1 \<rparr>) \<and>
   (Image i \<in> set (shapes st) \<longrightarrow>
      Image (i \<lparr> shape_x := snap st (node_x node), shape_y := snap st (node_y node),
                  shape_rotation := node_rotation node,
                  image_width := max 10 (image_width i * node_scaleX node),
                  image_height := max 10 (image_height i * node_scaleY node) \<rparr>)
        \<in> set (shapes (snd (image_onTransformEnd i node st))) \<and>
      fst (image_onTransformEnd i node st) = node \<lparr> node_scaleX := 1, node_scaleY := 1 \<rparr>) \<and>
   (Circle c \<in> set (shapes st) \<longrightarrow>
      Circle (c \<lparr> shape_x := snap st (node_x node), shape_y := snap st (node_y node),
                   shape_rotation := node_rotation node,
                   circle_radius := max 5 (circle_radius c * node_scaleX node) \<rparr>)
        \<in> set (shapes (snd (circle_onTransformEnd c node st))) \<and>
      fst (circle_onTransformEnd c node st) = node \<lparr> node_scaleX := 1, node_scaleY := 1 \<rparr>) \<and>
   (Text t \<in> set (shapes st) \<longrightarrow>
      Text (t \<lparr> shape_x := snap st (node_x node), shape_y := snap st (node_y node),
                 shape_rotation := node_rotation node,
                 text_width := Some (max 50
                   ((case text_width t of Some w \<Rightarrow> w | None \<Rightarrow> 300) * node_scaleX node)) \<rparr>)
        \<in> set (shapes (snd (text_onTransformEnd t node st))) \<and>
      fst (text_onTransformEnd t node st) = node \<lparr> node_scaleX := 1, node_scaleY := 1 \<rparr>)"
  using rect_resize [of r st node] image_resize [of i st node]
    circle_resize [of c st node] text_resize [of t st node]
  by blast

theorem resize_reconciliation_witness:
  "Rect demo_rect \<in> set (shapes demo) \<and>
   Image demo_image \<in> set (shapes demo) \<and>
   Circle demo_circle \<in> set (shapes demo) \<and>
   Text demo_text \<in> set (shapes demo) \<and>
   Rect (demo_rect \<lparr> shape_x := 320, shape_y := 160, shape_rotation := 15,
                      rect_width := 640, rect_height := 10 \<rparr>)
     \<in> set (shapes (snd (rect_onTransformEnd demo_rect demo_node demo))) \<and>
   Image (demo_image \<lparr> shape_x := 320, shape_y := 160, shape_rotation := 15,
                        image_width := 1200, image_height := 10 \<rparr>)
     \<in> set (shapes (snd (image_onTransformEnd demo_image demo_node demo))) \<and>
   Circle (demo_circle \<lparr> shape_x := 320, shape_y := 160, shape_rotation := 15,
                          circle_radius := 200 \<rparr>)
     \<in> set (shapes (snd (circle_onTransformEnd demo_circle demo_node demo))) \<and>
   Text (demo_text \<lparr> shape_x := 320, shape_y := 160, shape_rotation := 15,
                      text_width := Some 1200 \<rparr>)
     \<in> set (shapes (snd (text_onTransformEnd demo_text demo_node demo))) \<and>
   node_scaleX (fst (rect_onTransformEnd demo_rect demo_node demo)) = 1 \<and>
   node_scaleY (fst (rect_onTransformEnd demo_rect demo_node demo)) = 1"
proof -
  have h: "Rect demo_rect \<in> set (shapes demo)" "Image demo_image \<in> set (shapes demo)"
    "Circle demo_circle \<in> set (shapes demo)" "Text demo_text \<in> set (shapes demo)"
    by (simp_all add: shapes_demo)
  have n: "node_x demo_node = 320" "node_y demo_node = 160" "node_rotation demo_node = 15"
    "node_scaleX demo_node = 2" "node_scaleY demo_node = 1 / 100"
    by (simp_all add: demo_node_def)
  have v: "rect_width demo_rect = 320" "rect_height demo_rect = 180"
    "image_width demo_image = 600" "image_height demo_image = 300"
    "circle_radius demo_circle = 100" "text_width demo_text = Some 600"
    by (simp_all add: demo_rect_def demo_image_def demo_circle_def demo_text_def)
  from resize_reconciliation [of demo_rect demo demo_node demo_image demo_circle demo_text] h
  show ?thesis
    by (simp add: n v snap_demo)
qed

end
